theory Spec2Isabelle
  imports Complex_Main
begin

section \<open>Data model (main.py, lines 14-45)\<close>

text \<open>
  Python floats are idealised as real numbers and Python's unbounded integers are
  \<open>int\<close>. A \<open>Point\<close> holds two numbers; a \<open>Street\<close> is a directed segment with a
  visual width and a category string.
\<close>

record Point =
  px :: real
  py :: real

definition distance_to :: "Point \<Rightarrow> Point \<Rightarrow> real" where
  "distance_to self other = sqrt ((px self - px other)\<^sup>2 + (py self - py other)\<^sup>2)"

record Street =
  start :: Point
  end_pt :: Point
  st_width :: real
  street_type :: string

record Building =
  position :: Point
  b_width :: real
  b_height :: real
  building_type :: string

record River =
  points :: "Point list"
  r_width :: real

datatype py_error = ValueError | IndexError

section \<open>The random source\<close>

text \<open>
  The process-global generator of Python's \<open>random\<close> module is an arbitrary infinite
  sequence of raw draws \<open>rs\<close>; every library call reads the draw at the current index
  and moves the index on by one. Quantifying over \<open>rs\<close> covers every outcome the
  library can produce: \<open>random()\<close> is in \<open>[0, 1)\<close>, \<open>uniform a b\<close> is
  \<open>a + (b - a) * random()\<close>, \<open>randint a b\<close> is \<open>a + randbelow (b - a + 1)\<close> and
  raises ValueError on an empty range, \<open>choice xs\<close> is \<open>xs[randbelow (len xs)]\<close>.
  The source calls \<open>choice\<close> on non-empty literal lists only.
\<close>

type_synonym rng = "nat \<Rightarrow> nat"

definition random_random :: "rng \<Rightarrow> nat \<Rightarrow> real \<times> nat" where
  "random_random rs i = (real (rs i mod 2 ^ 53) / 2 ^ 53, Suc i)"

definition random_uniform :: "real \<Rightarrow> real \<Rightarrow> rng \<Rightarrow> nat \<Rightarrow> real \<times> nat" where
  "random_uniform a b rs i = (a + (b - a) * fst (random_random rs i), Suc i)"

definition random_randint :: "int \<Rightarrow> int \<Rightarrow> rng \<Rightarrow> nat \<Rightarrow> py_error + (int \<times> nat)" where
  "random_randint a b rs i =
     (if b < a then Inl ValueError
      else Inr (a + int (rs i mod nat (b - a + 1)), Suc i))"

definition random_choice :: "'a list \<Rightarrow> rng \<Rightarrow> nat \<Rightarrow> 'a \<times> nat" where
  "random_choice xs rs i = (xs ! (rs i mod length xs), Suc i)"

section \<open>Grammar engine: LSystem (main.py, lines 47-59)\<close>

record LSystem =
  axiom :: string
  rules :: "string \<rightharpoonup> string"

text \<open>
  The inner loop \<open>for char in result: new_result += self.rules.get(char, char)\<close>,
  with the accumulator \<open>new_result\<close>; a character is looked up as the one-character
  string it is in Python.
\<close>

fun rewrite :: "(string \<rightharpoonup> string) \<Rightarrow> string \<Rightarrow> string \<Rightarrow> string" where
  "rewrite rl new_result [] = new_result"
| "rewrite rl new_result (c # cs) =
     rewrite rl (new_result @ (case rl [c] of None \<Rightarrow> [c] | Some r \<Rightarrow> r)) cs"

text \<open>The outer loop \<open>for _ in range(iterations)\<close>, counting down the rounds left.\<close>

fun generate_loop :: "(string \<rightharpoonup> string) \<Rightarrow> nat \<Rightarrow> string \<Rightarrow> string" where
  "generate_loop rl 0 result = result"
| "generate_loop rl (Suc n) result = generate_loop rl n (rewrite rl [] result)"

text \<open>\<open>range(iterations)\<close> is empty for a negative count, as \<open>nat\<close> is 0 there.\<close>

definition generate :: "LSystem \<Rightarrow> int \<Rightarrow> string" where
  "generate self iterations = generate_loop (rules self) (nat iterations) (axiom self)"

text \<open>
  The specification's wording: every symbol is replaced by its rule's right-hand side
  (by itself when it has no rule), all symbols at once.
\<close>

definition substitute :: "(string \<rightharpoonup> string) \<Rightarrow> char \<Rightarrow> string" where
  "substitute rl c = (case rl [c] of None \<Rightarrow> [c] | Some r \<Rightarrow> r)"

definition rewrite_all :: "(string \<rightharpoonup> string) \<Rightarrow> string \<Rightarrow> string" where
  "rewrite_all rl s = concat (map (substitute rl) s)"

definition street_rules :: "string \<rightharpoonup> string" where
  "street_rules = [''F'' \<mapsto> ''F+F-F-F+F'', ''+'' \<mapsto> ''+'', ''-'' \<mapsto> ''-'']"

section \<open>Street synthesizer: StreetGenerator (main.py, lines 61-104)\<close>

record StreetGenerator =
  sg_width :: int
  sg_height :: int
  streets :: "Street list"
  l_system :: LSystem

definition StreetGenerator_init :: "int \<Rightarrow> int \<Rightarrow> StreetGenerator" where
  "StreetGenerator_init w h =
     \<lparr>sg_width = w, sg_height = h, streets = [],
      l_system = \<lparr>axiom = ''F'', rules = street_rules\<rparr>\<rparr>"

definition radians :: "real \<Rightarrow> real" where
  "radians d = d * pi / 180"

text \<open>
  The variables of the loop of \<open>generate_streets\<close>: the position \<open>x, y\<close>, the heading
  \<open>angle\<close> in degrees, the branch \<open>stack\<close> (a Python list: pushed and popped at its
  end), the object's list \<open>self.streets\<close> and the index into the random source.
\<close>

record turtle =
  tx :: real
  ty :: real
  angle :: int
  stack :: "(real \<times> real \<times> int) list"
  out :: "Street list"
  rnd :: nat

definition in_canvas :: "int \<Rightarrow> int \<Rightarrow> real \<Rightarrow> real \<Rightarrow> bool" where
  "in_canvas w h x y \<longleftrightarrow> 0 \<le> x \<and> x \<le> real_of_int w \<and> 0 \<le> y \<and> y \<le> real_of_int h"

text \<open>The branch \<open>char == 'F'\<close> (lines 83-94), with \<open>step_size = 8\<close>.\<close>

definition forward :: "int \<Rightarrow> int \<Rightarrow> rng \<Rightarrow> turtle \<Rightarrow> turtle" where
  "forward w h rs t =
     (let new_x = tx t + 8 * cos (radians (real_of_int (angle t)));
          new_y = ty t + 8 * sin (radians (real_of_int (angle t)));
          t' = (if in_canvas w h new_x new_y then
                  (let (wd, i1) = random_uniform 0.5 2.0 rs (rnd t);
                       (tp, i2) = random_choice [''main'', ''secondary'', ''residential''] rs i1
                   in t\<lparr>out := out t @
                          [\<lparr>start = \<lparr>px = tx t, py = ty t\<rparr>,
                            end_pt = \<lparr>px = new_x, py = new_y\<rparr>,
                            st_width = wd, street_type = tp\<rparr>],
                        rnd := i2\<rparr>)
                else t)
      in t'\<lparr>tx := new_x, ty := new_y\<rparr>)"

text \<open>One round of the loop over the symbols (lines 82-103), with \<open>angle_step = 90\<close>.\<close>

definition step :: "int \<Rightarrow> int \<Rightarrow> rng \<Rightarrow> turtle \<Rightarrow> char \<Rightarrow> turtle" where
  "step w h rs t c =
     (if c = CHR ''F'' then forward w h rs t
      else if c = CHR ''+'' then t\<lparr>angle := angle t + 90\<rparr>
      else if c = CHR ''-'' then t\<lparr>angle := angle t - 90\<rparr>
      else if c = CHR ''['' then t\<lparr>stack := stack t @ [(tx t, ty t, angle t)]\<rparr>
      else if c = CHR '']'' then
        (if stack t \<noteq> [] then
           (let (x, y, a) = last (stack t)
            in t\<lparr>tx := x, ty := y, angle := a, stack := butlast (stack t)\<rparr>)
         else t)
      else t)"

definition turtle_init :: "StreetGenerator \<Rightarrow> nat \<Rightarrow> turtle" where
  "turtle_init self i =
     \<lparr>tx = real_of_int (sg_width self div 2), ty = real_of_int (sg_height self div 2),
      angle = 0, stack = [], out = streets self, rnd = i\<rparr>"

text \<open>
  \<open>generate_streets\<close> returns the list \<open>self.streets\<close>, the object with that list, and
  the index the random source has reached.
\<close>

definition generate_streets ::
  "StreetGenerator \<Rightarrow> int \<Rightarrow> rng \<Rightarrow> nat \<Rightarrow> Street list \<times> StreetGenerator \<times> nat" where
  "generate_streets self iterations rs i =
     (let l_string = generate (l_system self) iterations;
          t = foldl (step (sg_width self) (sg_height self) rs) (turtle_init self i) l_string
      in (out t, self\<lparr>streets := out t\<rparr>, rnd t))"

text \<open>The streets one call adds: what the returned list holds beyond the list before the call.\<close>

definition emitted :: "StreetGenerator \<Rightarrow> int \<Rightarrow> rng \<Rightarrow> nat \<Rightarrow> Street list" where
  "emitted self iterations rs i =
     drop (length (streets self)) (fst (generate_streets self iterations rs i))"

text \<open>
  The forward symbols of a string whose computed end point is inside the canvas, counted
  on the run itself: the position right after the symbol at index \<open>k\<close> is the end point
  computed there.
\<close>

definition forward_in_bounds :: "int \<Rightarrow> int \<Rightarrow> rng \<Rightarrow> turtle \<Rightarrow> string \<Rightarrow> nat list" where
  "forward_in_bounds w h rs t0 s =
     filter (\<lambda>k. s ! k = CHR ''F'' \<and>
                 in_canvas w h (tx (foldl (step w h rs) t0 (take (Suc k) s)))
                               (ty (foldl (step w h rs) t0 (take (Suc k) s))))
       [0..<length s]"

text \<open>
  What holds of every street a forward move adds: its end point is inside the canvas, it
  is as long as the step, and so its start point is at most a step away on each axis.
\<close>

definition segment_ok :: "int \<Rightarrow> int \<Rightarrow> Street \<Rightarrow> bool" where
  "segment_ok w h s \<longleftrightarrow>
     in_canvas w h (px (end_pt s)) (py (end_pt s)) \<and>
     distance_to (start s) (end_pt s) = 8 \<and>
     \<bar>px (start s) - px (end_pt s)\<bar> \<le> 8 \<and> \<bar>py (start s) - py (end_pt s)\<bar> \<le> 8"

section \<open>Partition generator: VoronoiGenerator (main.py, lines 106-123)\<close>










section \<open>Terrain generator: CellularAutomaton.generate_rivers (main.py, lines 131-160)\<close>

text \<open>
  The variables of the walk: the current cell, the point list of the river and the index
  into the random source. Cells are integers; a \<open>Point\<close> is built from them.
\<close>

record walk =
  current_x :: int
  current_y :: int
  river_points :: "Point list"
  w_rnd :: nat

definition int_point :: "int \<Rightarrow> int \<Rightarrow> Point" where
  "int_point a b = \<lparr>px = real_of_int a, py = real_of_int b\<rparr>"

text \<open>
  One round of the inner loop (lines 143-155), in two parts: the clamped cell the
  round moves towards (lines 143-152), and the test that appends it (lines 153-155).
\<close>

definition walk_target :: "int \<Rightarrow> int \<Rightarrow> rng \<Rightarrow> walk \<Rightarrow> int \<times> int \<times> nat" where
  "walk_target w h rs s =
     (let (direction_x, i1) =
            (if current_x s < w div 2 then random_choice [0, 1] rs (w_rnd s)
             else random_choice [- 1, 0] rs (w_rnd s));
          (direction_y, i2) =
            (if current_y s < h div 2 then random_choice [0, 1] rs i1
             else random_choice [- 1, 0] rs i1);
          new_x = max 0 (min (w - 1) (current_x s + direction_x));
          new_y = max 0 (min (h - 1) (current_y s + direction_y))
      in (new_x, new_y, i2))"

definition walk_step :: "int \<Rightarrow> int \<Rightarrow> rng \<Rightarrow> walk \<Rightarrow> walk" where
  "walk_step w h rs s =
     (let (new_x, new_y, i2) = walk_target w h rs s
      in if (new_x, new_y) \<noteq> (current_x s, current_y s)
         then \<lparr>current_x = new_x, current_y = new_y,
               river_points = river_points s @ [int_point new_x new_y], w_rnd = i2\<rparr>
         else s\<lparr>w_rnd := i2\<rparr>)"

text \<open>The inner loop \<open>for _ in range(n)\<close>.\<close>

fun walk_loop :: "int \<Rightarrow> int \<Rightarrow> rng \<Rightarrow> nat \<Rightarrow> walk \<Rightarrow> walk" where
  "walk_loop w h rs 0 s = s"
| "walk_loop w h rs (Suc n) s = walk_loop w h rs n (walk_step w h rs s)"

text \<open>The spawn point on an edge of the canvas (lines 134-139).\<close>

definition spawn :: "int \<Rightarrow> int \<Rightarrow> rng \<Rightarrow> nat \<Rightarrow> py_error + (int \<times> int \<times> nat)" where
  "spawn w h rs i =
     (let (r0, i0) = random_random rs i
      in if r0 < 0.5 then
           (let (r1, i1) = random_random rs i0;
                start_x = (if r1 < 0.5 then 0 else w - 1)
            in case random_randint 0 (h - 1) rs i1 of
                 Inl e \<Rightarrow> Inl e
               | Inr (start_y, i2) \<Rightarrow> Inr (start_x, start_y, i2))
         else
           (case random_randint 0 (w - 1) rs i0 of
              Inl e \<Rightarrow> Inl e
            | Inr (start_x, i1) \<Rightarrow>
                (let (r1, i2) = random_random rs i1;
                     start_y = (if r1 < 0.5 then 0 else h - 1)
                 in Inr (start_x, start_y, i2))))"

text \<open>The body of the outer loop: one river (lines 134-159).\<close>

definition generate_river :: "int \<Rightarrow> int \<Rightarrow> rng \<Rightarrow> nat \<Rightarrow> py_error + (River \<times> nat)" where
  "generate_river w h rs i =
     (case spawn w h rs i of
        Inl e \<Rightarrow> Inl e
      | Inr (start_x, start_y, i3) \<Rightarrow>
          (case random_randint 20 50 rs i3 of
             Inl e \<Rightarrow> Inl e
           | Inr (n, i4) \<Rightarrow>
               (let s = walk_loop w h rs (nat n)
                          \<lparr>current_x = start_x, current_y = start_y,
                           river_points = [int_point start_x start_y], w_rnd = i4\<rparr>;
                    (wd, i5) = random_uniform 0.5 2.0 rs (w_rnd s)
                in Inr (\<lparr>points = river_points s, r_width = wd\<rparr>, i5))))"

fun generate_rivers_loop ::
  "int \<Rightarrow> int \<Rightarrow> rng \<Rightarrow> nat \<Rightarrow> River list \<Rightarrow> nat \<Rightarrow> py_error + (River list \<times> nat)" where
  "generate_rivers_loop w h rs 0 rivers i = Inr (rivers, i)"
| "generate_rivers_loop w h rs (Suc k) rivers i =
     (case generate_river w h rs i of
        Inl e \<Rightarrow> Inl e
      | Inr (r, i') \<Rightarrow> generate_rivers_loop w h rs k (rivers @ [r]) i')"

definition generate_rivers ::
  "int \<Rightarrow> int \<Rightarrow> int \<Rightarrow> rng \<Rightarrow> nat \<Rightarrow> py_error + (River list \<times> nat)" where
  "generate_rivers w h num_rivers rs i = generate_rivers_loop w h rs (nat num_rivers) [] i"

text \<open>
  What the walk keeps true: the point list is not empty, it ends at the current cell,
  and no two neighbouring points are equal.
\<close>

definition walk_ok :: "walk \<Rightarrow> bool" where
  "walk_ok s \<longleftrightarrow> river_points s \<noteq> [] \<and>
     last (river_points s) = int_point (current_x s) (current_y s) \<and>
     distinct_adj (river_points s)"

section \<open>Building placer: BuildingGenerator.generate_buildings (main.py, lines 184-220)\<close>

text \<open>\<open>int(x)\<close> on a float truncates towards zero.\<close>

definition py_int :: "real \<Rightarrow> int" where
  "py_int r = (if 0 \<le> r then \<lfloor>r\<rfloor> else \<lceil>r\<rceil>)"

text \<open>\<open>sum(...)\<close> adds from the left, starting at 0.\<close>

definition py_sum :: "real list \<Rightarrow> real" where
  "py_sum xs = foldl (+) 0 xs"

text \<open>The body of the loop over \<open>i\<close> for one street (lines 191-202).\<close>

definition street_building :: "Street \<Rightarrow> int \<Rightarrow> int \<Rightarrow> rng \<Rightarrow> nat \<Rightarrow> Building \<times> nat" where
  "street_building street num_street_buildings i rs k =
     (let t = real_of_int i / real_of_int (max 1 (num_street_buildings - 1));
          pos_x = px (start street) + t * (px (end_pt street) - px (start street));
          pos_y = py (start street) + t * (py (end_pt street) - py (start street));
          (offset_x, k1) = random_uniform (- 1) 1 rs k;
          (offset_y, k2) = random_uniform (- 1) 1 rs k1;
          (bw, k3) = random_uniform 0.5 2.0 rs k2;
          (bh, k4) = random_uniform 0.5 2.0 rs k3;
          (bt, k5) = random_choice [''residential'', ''commercial'', ''industrial''] rs k4
      in (\<lparr>position = \<lparr>px = pos_x + offset_x, py = pos_y + offset_y\<rparr>,
           b_width = bw, b_height = bh, building_type = bt\<rparr>, k5))"

text \<open>The loop \<open>for i in range(num_street_buildings)\<close>, over the values of \<open>i\<close> left.\<close>

fun street_loop ::
  "Street \<Rightarrow> int \<Rightarrow> nat list \<Rightarrow> rng \<Rightarrow> Building list \<Rightarrow> nat \<Rightarrow> Building list \<times> nat" where
  "street_loop street n [] rs buildings k = (buildings, k)"
| "street_loop street n (i # rest) rs buildings k =
     (let (b, k') = street_building street n (int i) rs k
      in street_loop street n rest rs (buildings @ [b]) k')"

text \<open>The body of the loop over the streets (lines 188-202).\<close>

definition street_buildings ::
  "Street \<Rightarrow> rng \<Rightarrow> Building list \<Rightarrow> nat \<Rightarrow> Building list \<times> nat" where
  "street_buildings street rs buildings k =
     (let street_length = distance_to (start street) (end_pt street);
          num_street_buildings = py_int (street_length / 3)
      in street_loop street num_street_buildings [0..<nat num_street_buildings] rs buildings k)"

fun streets_loop :: "Street list \<Rightarrow> rng \<Rightarrow> Building list \<Rightarrow> nat \<Rightarrow> Building list \<times> nat" where
  "streets_loop [] rs buildings k = (buildings, k)"
| "streets_loop (street # rest) rs buildings k =
     (let (buildings', k') = street_buildings street rs buildings k
      in streets_loop rest rs buildings' k')"

text \<open>The loop \<open>for _ in range(district_buildings)\<close> (lines 209-218).\<close>

fun scatter_loop ::
  "real \<Rightarrow> real \<Rightarrow> nat \<Rightarrow> rng \<Rightarrow> Building list \<Rightarrow> nat \<Rightarrow> Building list \<times> nat" where
  "scatter_loop center_x center_y 0 rs buildings k = (buildings, k)"
| "scatter_loop center_x center_y (Suc n) rs buildings k =
     (let (jx, k1) = random_uniform (- 10) 10 rs k;
          (jy, k2) = random_uniform (- 10) 10 rs k1;
          (bw, k3) = random_uniform 0.5 2.0 rs k2;
          (bh, k4) = random_uniform 0.5 2.0 rs k3;
          (bt, k5) = random_choice [''residential'', ''commercial'', ''industrial''] rs k4
      in scatter_loop center_x center_y n rs
           (buildings @ [\<lparr>position = \<lparr>px = center_x + jx, py = center_y + jy\<rparr>,
                          b_width = bw, b_height = bh, building_type = bt\<rparr>]) k5)"

text \<open>The body of the loop over the districts (lines 204-218).\<close>

definition district_buildings ::
  "Point list \<Rightarrow> rng \<Rightarrow> Building list \<Rightarrow> nat \<Rightarrow> py_error + (Building list \<times> nat)" where
  "district_buildings district rs buildings k =
     (if length district < 3 then Inr (buildings, k)
      else
        (let center_x = py_sum (map px district) / real (length district);
             center_y = py_sum (map py district) / real (length district)
         in case random_randint 5 15 rs k of
              Inl e \<Rightarrow> Inl e
            | Inr (n, k1) \<Rightarrow> Inr (scatter_loop center_x center_y (nat n) rs buildings k1)))"

fun districts_buildings_loop ::
  "Point list list \<Rightarrow> rng \<Rightarrow> Building list \<Rightarrow> nat \<Rightarrow> py_error + (Building list \<times> nat)" where
  "districts_buildings_loop [] rs buildings k = Inr (buildings, k)"
| "districts_buildings_loop (district # rest) rs buildings k =
     (case district_buildings district rs buildings k of
        Inl e \<Rightarrow> Inl e
      | Inr (buildings', k') \<Rightarrow> districts_buildings_loop rest rs buildings' k')"

text \<open>
  \<open>generate_buildings\<close> starts from an empty local list; \<open>num_buildings\<close> is not read.
\<close>

definition generate_buildings ::
  "Street list \<Rightarrow> Point list list \<Rightarrow> int \<Rightarrow> rng \<Rightarrow> nat \<Rightarrow> py_error + (Building list \<times> nat)" where
  "generate_buildings strs dists num_buildings rs k =
     (let (buildings, k') = streets_loop strs rs [] k
      in districts_buildings_loop dists rs buildings k')"

text \<open>
  The specification's wording: the parametric position of the building with index \<open>i\<close>
  among \<open>n\<close>, and the unweighted mean of a list of numbers.
\<close>

definition parametric_position :: "int \<Rightarrow> nat \<Rightarrow> real" where
  "parametric_position n i = (if n > 1 then real i / real_of_int (n - 1) else 0)"

definition mean :: "real list \<Rightarrow> real" where
  "mean xs = sum_list xs / real (length xs)"

text \<open>A building within the jitter of 10 on each axis of a centre.\<close>

definition near :: "real \<Rightarrow> real \<Rightarrow> Building \<Rightarrow> bool" where
  "near cx cy b \<longleftrightarrow> \<bar>px (position b) - cx\<bar> \<le> 10 \<and> \<bar>py (position b) - cy\<bar> \<le> 10"

section \<open>Grammar engine: proofs\<close>

lemma rewrite_acc: "rewrite rl acc s = acc @ rewrite_all rl s"
  by (induction s arbitrary: acc) (simp_all add: rewrite_all_def substitute_def)

lemma generate_loop_funpow: "generate_loop rl n s = (rewrite_all rl ^^ n) s"
  by (induction n arbitrary: s) (simp_all add: rewrite_acc funpow_swap1)

text \<open>
  C4. For every axiom, rule mapping and iteration count \<open>N \<ge> 0\<close>, \<open>LSystem.generate\<close>
  returns the axiom rewritten \<open>N\<close> times, each round replacing every symbol at once by
  its rule's right-hand side (identity for a symbol with no rule); \<open>N = 0\<close> returns the
  axiom unchanged, and axiom "F" with the rule F -> "F+F-F-F+F" gives "F+F-F-F+F",
  nine symbols, after one round.
\<close>

theorem generate_is_iterated_substitution:
  "(0 \<le> N \<longrightarrow> generate ls N = (rewrite_all (rules ls) ^^ nat N) (axiom ls))
   \<and> generate ls 0 = axiom ls
   \<and> generate \<lparr>axiom = ''F'', rules = street_rules\<rparr> 1 = ''F+F-F-F+F''
   \<and> length (generate \<lparr>axiom = ''F'', rules = street_rules\<rparr> 1) = 9"
proof -
  have a: "generate ls N = (rewrite_all (rules ls) ^^ nat N) (axiom ls)"
    by (simp add: generate_def generate_loop_funpow)
  have b: "generate ls 0 = axiom ls"
    by (simp add: generate_def)
  have c: "generate \<lparr>axiom = ''F'', rules = street_rules\<rparr> 1 = ''F+F-F-F+F''"
    by (simp add: generate_def street_rules_def)
  from a b c show ?thesis by simp
qed

theorem generate_is_iterated_substitution_witness:
  "generate \<lparr>axiom = ''F-F'', rules = street_rules\<rparr> 2
     = rewrite_all street_rules (rewrite_all street_rules ''F-F'')
   \<and> generate \<lparr>axiom = ''F-F'', rules = street_rules\<rparr> 2
     = ''F+F-F-F+F+F+F-F-F+F-F+F-F-F+F-F+F-F-F+F+F+F-F-F+F-F+F-F-F+F+F+F-F-F+F-F+F-F-F+F-F+F-F-F+F+F+F-F-F+F''"
proof -
  have h: "(0::int) \<le> 2" by simp
  have "generate \<lparr>axiom = ''F-F'', rules = street_rules\<rparr> 2
          = (rewrite_all street_rules ^^ nat 2) ''F-F''"
    using generate_is_iterated_substitution [of 2 "\<lparr>axiom = ''F-F'', rules = street_rules\<rparr>"] h
    by simp
  then have e: "generate \<lparr>axiom = ''F-F'', rules = street_rules\<rparr> 2
          = rewrite_all street_rules (rewrite_all street_rules ''F-F'')"
    by (simp add: numeral_2_eq_2)
  show ?thesis
    unfolding e by (simp add: rewrite_all_def substitute_def street_rules_def)
qed

section \<open>Street synthesizer: proofs\<close>

lemma radians_values:
  "radians 0 = 0" "radians 90 = pi / 2" "radians (- 90) = - (pi / 2)" "radians 180 = pi"
  by (simp_all add: radians_def)

lemma trig_values:
  "cos (radians 0) = 1" "sin (radians 0) = 0"
  "cos (radians 90) = 0" "sin (radians 90) = 1"
  "cos (radians (- 90)) = 0" "sin (radians (- 90)) = - 1"
  "cos (radians 180) = - 1" "sin (radians 180) = 0"
  by (simp_all add: radians_values)

lemma step_size: "64 * (cos v)\<^sup>2 + 64 * (sin v)\<^sup>2 = (64::real)"
proof -
  have "(cos v)\<^sup>2 + (sin v)\<^sup>2 = 1"
    by simp
  then show ?thesis
    by linarith
qed

lemma forward_out:
  "out (forward w h rs t) =
     (if in_canvas w h (tx t + 8 * cos (radians (real_of_int (angle t))))
                       (ty t + 8 * sin (radians (real_of_int (angle t))))
      then out t @ [\<lparr>start = \<lparr>px = tx t, py = ty t\<rparr>,
                     end_pt = \<lparr>px = tx t + 8 * cos (radians (real_of_int (angle t))),
                               py = ty t + 8 * sin (radians (real_of_int (angle t)))\<rparr>,
                     st_width = fst (random_uniform 0.5 2.0 rs (rnd t)),
                     street_type = fst (random_choice [''main'', ''secondary'', ''residential'']
                                          rs (Suc (rnd t)))\<rparr>]
      else out t)"
  by (simp add: forward_def Let_def split_def random_uniform_def)

lemma forward_pos:
  "tx (forward w h rs t) = tx t + 8 * cos (radians (real_of_int (angle t)))"
  "ty (forward w h rs t) = ty t + 8 * sin (radians (real_of_int (angle t)))"
  by (simp_all add: forward_def Let_def split_def)

lemma step_out:
  "out (step w h rs t c) = (if c = CHR ''F'' then out (forward w h rs t) else out t)"
  by (simp add: step_def Let_def split_def)

lemma forward_distance:
  "distance_to \<lparr>px = x, py = y\<rparr> \<lparr>px = x + 8 * cos v, py = y + 8 * sin v\<rparr> = 8"
  unfolding distance_to_def
  by (rule real_sqrt_unique) (simp_all add: power_mult_distrib step_size)

lemma cos_step_bound: "\<bar>8 * cos (v::real)\<bar> \<le> 8"
  using abs_cos_le_one [of v] by (simp add: abs_mult)

lemma sin_step_bound: "\<bar>8 * sin (v::real)\<bar> \<le> 8"
  using abs_sin_le_one [of v] by (simp add: abs_mult)

lemma forward_segment_ok:
  assumes "in_canvas w h (x + 8 * cos v) (y + 8 * sin v)"
  shows "segment_ok w h \<lparr>start = \<lparr>px = x, py = y\<rparr>,
           end_pt = \<lparr>px = x + 8 * cos v, py = y + 8 * sin v\<rparr>, st_width = wd, street_type = tp\<rparr>"
  using assms cos_step_bound [of v] sin_step_bound [of v]
  by (simp add: segment_ok_def forward_distance)

lemma step_keeps_segments:
  assumes "n \<le> length (out t)" and "\<forall>s\<in>set (drop n (out t)). segment_ok w h s"
  shows "n \<le> length (out (step w h rs t c)) \<and>
         (\<forall>s\<in>set (drop n (out (step w h rs t c))). segment_ok w h s)"
  using assms by (auto simp: step_out forward_out forward_segment_ok)

lemma run_keeps_segments:
  assumes "n \<le> length (out t)" and "\<forall>s\<in>set (drop n (out t)). segment_ok w h s"
  shows "\<forall>s\<in>set (drop n (out (foldl (step w h rs) t cs))). segment_ok w h s"
  using assms
proof (induction cs arbitrary: t)
  case Nil
  then show ?case by simp
next
  case (Cons c cs)
  have "n \<le> length (out (step w h rs t c)) \<and>
        (\<forall>s\<in>set (drop n (out (step w h rs t c))). segment_ok w h s)"
    using Cons.prems by (rule step_keeps_segments)
  then show ?case
    using Cons.IH [of "step w h rs t c"] by simp
qed

lemma emitted_segments:
  "\<forall>s\<in>set (emitted self iterations rs i). segment_ok (sg_width self) (sg_height self) s"
  unfolding emitted_def generate_streets_def Let_def fst_conv
  by (rule run_keeps_segments) (simp_all add: turtle_init_def)

lemma step_count:
  "length (out (step w h rs t c)) =
     length (out t) +
     (if c = CHR ''F'' \<and> in_canvas w h (tx (step w h rs t c)) (ty (step w h rs t c)) then 1 else 0)"
  by (simp add: step_def forward_out forward_pos Let_def split_def)

lemma forward_in_bounds_snoc:
  "forward_in_bounds w h rs t0 (s @ [c]) =
     forward_in_bounds w h rs t0 s @
     (if c = CHR ''F'' \<and> in_canvas w h (tx (foldl (step w h rs) t0 (s @ [c])))
                                         (ty (foldl (step w h rs) t0 (s @ [c])))
      then [length s] else [])"
proof -
  define P where "P = (\<lambda>u k. u ! k = CHR ''F'' \<and>
                 in_canvas w h (tx (foldl (step w h rs) t0 (take (Suc k) u)))
                               (ty (foldl (step w h rs) t0 (take (Suc k) u))))"
  have A: "filter (P (s @ [c])) [0..<length s] = filter (P s) [0..<length s]"
    by (rule filter_cong) (simp_all add: P_def nth_append)
  have B: "filter (P (s @ [c])) [length s] =
             (if c = CHR ''F'' \<and> in_canvas w h (tx (foldl (step w h rs) t0 (s @ [c])))
                                                (ty (foldl (step w h rs) t0 (s @ [c])))
              then [length s] else [])"
    by (auto simp: P_def)
  have C: "forward_in_bounds w h rs t0 u = filter (P u) [0..<length u]" for u
    by (simp add: forward_in_bounds_def P_def)
  have "filter (P (s @ [c])) [0..<length (s @ [c])] =
          filter (P (s @ [c])) [0..<length s] @ filter (P (s @ [c])) [length s]"
    by simp
  then show ?thesis
    unfolding C A B .
qed

lemma run_count:
  "length (out (foldl (step w h rs) t0 s)) =
     length (out t0) + length (forward_in_bounds w h rs t0 s)"
proof (induction s rule: rev_induct)
  case Nil
  show ?case by (simp add: forward_in_bounds_def)
next
  case (snoc c s)
  show ?case
    unfolding forward_in_bounds_snoc
    using snoc.IH step_count [of w h rs "foldl (step w h rs) t0 s" c]
    by auto
qed

lemma generate_one_round: "generate (l_system (StreetGenerator_init w h)) 1 = ''F+F-F-F+F''"
  by (simp add: generate_def StreetGenerator_init_def street_rules_def)


lemmas eval_simps = step_def forward_def Let_def in_canvas_def trig_values
  random_uniform_def random_random_def random_choice_def turtle_init_def

lemma run_100_10:
  "fst (generate_streets (StreetGenerator_init 100 10) 1 (\<lambda>_. 0) 0) =
     [\<lparr>start = \<lparr>px = 50, py = 5\<rparr>, end_pt = \<lparr>px = 58, py = 5\<rparr>, st_width = 0.5, street_type = ''main''\<rparr>,
      \<lparr>start = \<lparr>px = 66, py = 13\<rparr>, end_pt = \<lparr>px = 66, py = 5\<rparr>, st_width = 0.5, street_type = ''main''\<rparr>,
      \<lparr>start = \<lparr>px = 66, py = 5\<rparr>, end_pt = \<lparr>px = 74, py = 5\<rparr>, st_width = 0.5, street_type = ''main''\<rparr>]"
  unfolding generate_streets_def generate_one_round
  by (simp add: eval_simps StreetGenerator_init_def)

lemma emitted_100_10:
  "emitted (StreetGenerator_init 100 10) 1 (\<lambda>_. 0) 0 =
     [\<lparr>start = \<lparr>px = 50, py = 5\<rparr>, end_pt = \<lparr>px = 58, py = 5\<rparr>, st_width = 0.5, street_type = ''main''\<rparr>,
      \<lparr>start = \<lparr>px = 66, py = 13\<rparr>, end_pt = \<lparr>px = 66, py = 5\<rparr>, st_width = 0.5, street_type = ''main''\<rparr>,
      \<lparr>start = \<lparr>px = 66, py = 5\<rparr>, end_pt = \<lparr>px = 74, py = 5\<rparr>, st_width = 0.5, street_type = ''main''\<rparr>]"
  unfolding emitted_def run_100_10 by (simp add: StreetGenerator_init_def)

text \<open>
  C1, as stated, fails. On a 100 by 10 canvas one round of the default grammar gives
  "F+F-F-F+F": the second and third forward moves leave the canvas through the top
  (no street), the fourth comes back in from (66, 13) to (66, 5) and is emitted, since
  the guard of line 86 tests the new position only. Its start point is outside.
\<close>

theorem street_start_outside_canvas:
  "\<not> (\<forall>s\<in>set (emitted (StreetGenerator_init 100 10) 1 (\<lambda>_. 0) 0).
        in_canvas 100 10 (px (start s)) (py (start s)) \<and>
        in_canvas 100 10 (px (end_pt s)) (py (end_pt s)))"
  unfolding emitted_100_10 by (simp add: in_canvas_def)

text \<open>
  C1, amended. For every symbol string, canvas and random draws, every street that
  \<open>generate_streets\<close> emits has its end point within \<open>[0, width] \<times> [0, height]\<close>; its
  start point is the position before the move, one step from the end point, hence
  within \<open>[-8, width + 8] \<times> [-8, height + 8]\<close>, and can lie outside the canvas.
\<close>

theorem emitted_end_in_canvas:
  "\<forall>s\<in>set (emitted self iterations rs i).
     in_canvas (sg_width self) (sg_height self) (px (end_pt s)) (py (end_pt s)) \<and>
     - 8 \<le> px (start s) \<and> px (start s) \<le> real_of_int (sg_width self) + 8 \<and>
     - 8 \<le> py (start s) \<and> py (start s) \<le> real_of_int (sg_height self) + 8"
proof
  fix s
  assume "s \<in> set (emitted self iterations rs i)"
  with emitted_segments have "segment_ok (sg_width self) (sg_height self) s"
    by blast
  then show "in_canvas (sg_width self) (sg_height self) (px (end_pt s)) (py (end_pt s)) \<and>
     - 8 \<le> px (start s) \<and> px (start s) \<le> real_of_int (sg_width self) + 8 \<and>
     - 8 \<le> py (start s) \<and> py (start s) \<le> real_of_int (sg_height self) + 8"
    unfolding segment_ok_def in_canvas_def by linarith
qed

theorem emitted_end_in_canvas_witness:
  "length (emitted (StreetGenerator_init 100 10) 1 (\<lambda>_. 0) 0) = 3 \<and>
   in_canvas 100 10 (px (end_pt (emitted (StreetGenerator_init 100 10) 1 (\<lambda>_. 0) 0 ! 1)))
                    (py (end_pt (emitted (StreetGenerator_init 100 10) 1 (\<lambda>_. 0) 0 ! 1))) \<and>
   py (start (emitted (StreetGenerator_init 100 10) 1 (\<lambda>_. 0) 0 ! 1)) = 13"
  using emitted_end_in_canvas [of "StreetGenerator_init 100 10" 1 "\<lambda>_. 0" 0]
  unfolding emitted_100_10 by (simp add: StreetGenerator_init_def)




text \<open>
  C3. The claim is that a generate call replaces what the component stored before.
  \<open>generate_districts\<close> and \<open>generate_buildings\<close> build a fresh local list and assign
  it; \<open>generate_streets\<close> appends to \<open>self.streets\<close>, which only the constructor
  empties. Two calls in a row on a 100 by 100 canvas with 0 iterations: the first returns
  one street, the second returns that street followed by the street of the second run.
\<close>

theorem second_run_keeps_first_run:
  "(let (r1, g1, i1) = generate_streets (StreetGenerator_init 100 100) 0 (\<lambda>_. 0) 0;
        (r2, g2, i2) = generate_streets g1 0 (\<lambda>_. 0) i1
    in r1 = [\<lparr>start = \<lparr>px = 50, py = 50\<rparr>, end_pt = \<lparr>px = 58, py = 50\<rparr>,
               st_width = 0.5, street_type = ''main''\<rparr>] \<and>
       r2 = r1 @ r1 \<and> streets g2 = r2 \<and> length r2 = 2)"
  by (simp add: generate_streets_def generate_def eval_simps StreetGenerator_init_def)

text \<open>
  C5. On a forward symbol the position moves to the computed coordinates whether or not
  a street is emitted, and a street (from the old to the new position) is appended
  exactly when the new position is inside the canvas. Hence the number of streets a call
  emits is the number of forward symbols whose computed end point is in bounds.
\<close>

theorem forward_emits_iff_in_canvas:
  "tx (step w h rs t CHR ''F'') = tx t + 8 * cos (radians (real_of_int (angle t)))
   \<and> ty (step w h rs t CHR ''F'') = ty t + 8 * sin (radians (real_of_int (angle t)))
   \<and> out (step w h rs t CHR ''F'') =
       (if in_canvas w h (tx (step w h rs t CHR ''F'')) (ty (step w h rs t CHR ''F''))
        then out t @ [\<lparr>start = \<lparr>px = tx t, py = ty t\<rparr>,
                       end_pt = \<lparr>px = tx (step w h rs t CHR ''F''), py = ty (step w h rs t CHR ''F'')\<rparr>,
                       st_width = fst (random_uniform 0.5 2.0 rs (rnd t)),
                       street_type = fst (random_choice [''main'', ''secondary'', ''residential'']
                                            rs (Suc (rnd t)))\<rparr>]
        else out t)
   \<and> length (emitted self iterations rs i) =
       length (forward_in_bounds (sg_width self) (sg_height self) rs (turtle_init self i)
                 (generate (l_system self) iterations))"
proof -
  have a: "step w h rs t CHR ''F'' = forward w h rs t"
    by (simp add: step_def)
  have b: "length (emitted self iterations rs i) =
       length (forward_in_bounds (sg_width self) (sg_height self) rs (turtle_init self i)
                 (generate (l_system self) iterations))"
    by (simp add: emitted_def generate_streets_def Let_def run_count turtle_init_def)
  show ?thesis
    unfolding a by (simp add: forward_pos forward_out b)
qed

theorem forward_emits_iff_in_canvas_witness:
  "length (forward_in_bounds 100 10 (\<lambda>_. 0) (turtle_init (StreetGenerator_init 100 10) 0)
             ''F+F-F-F+F'') = 3"
  using forward_emits_iff_in_canvas [of 100 10 "\<lambda>_. 0" "turtle_init (StreetGenerator_init 100 10) 0"
          "StreetGenerator_init 100 10" 1 0]
  unfolding emitted_100_10 generate_one_round by (simp add: StreetGenerator_init_def)

text \<open>
  C6. A push followed at once by a pop gives back the very state before the push:
  position, heading, stack, and everything else. A pop on an empty stack changes
  nothing.
\<close>

theorem push_pop_identity:
  "step w h rs (step w h rs t CHR ''['') CHR '']'' = t
   \<and> (stack t = [] \<longrightarrow> step w h rs t CHR '']'' = t)"
  by (simp add: step_def)

theorem push_pop_identity_witness:
  "stack (turtle_init (StreetGenerator_init 100 100) 0) = []
   \<and> step 100 100 (\<lambda>_. 0) (turtle_init (StreetGenerator_init 100 100) 0) CHR '']''
       = turtle_init (StreetGenerator_init 100 100) 0
   \<and> foldl (step 100 100 (\<lambda>_. 0)) (turtle_init (StreetGenerator_init 100 100) 0) ''[]''
       = turtle_init (StreetGenerator_init 100 100) 0"
  using push_pop_identity [of 100 100 "\<lambda>_. 0" "turtle_init (StreetGenerator_init 100 100) 0"]
  by (simp add: turtle_init_def)

section \<open>Partition generator: proofs\<close>







section \<open>Terrain generator: proofs\<close>

lemma random_randint_range:
  assumes "random_randint a b rs i = Inr (n, i')"
  shows "a \<le> n \<and> n \<le> b"
proof -
  from assms have ab: "a \<le> b" and n: "n = a + int (rs i mod nat (b - a + 1))"
    by (auto simp: random_randint_def split: if_splits)
  have "rs i mod nat (b - a + 1) < nat (b - a + 1)"
    using ab by (intro mod_less_divisor) simp
  with n ab show ?thesis by linarith
qed

lemma int_point_eq: "int_point a b = int_point c d \<longleftrightarrow> a = c \<and> b = d"
  by (simp add: int_point_def)

lemma walk_step_cases:
  "walk_step w h rs s = s\<lparr>w_rnd := snd (snd (walk_target w h rs s))\<rparr> \<or>
   (\<exists>x y. (x, y) \<noteq> (current_x s, current_y s) \<and>
      walk_step w h rs s =
        \<lparr>current_x = x, current_y = y,
         river_points = river_points s @ [int_point x y],
         w_rnd = snd (snd (walk_target w h rs s))\<rparr>)"
proof (cases "walk_target w h rs s")
  case (fields x y k)
  show ?thesis
  proof (cases "(x, y) \<noteq> (current_x s, current_y s)")
    case True
    with fields have "walk_step w h rs s =
        \<lparr>current_x = x, current_y = y,
         river_points = river_points s @ [int_point x y],
         w_rnd = snd (snd (walk_target w h rs s))\<rparr>"
      by (simp add: walk_step_def)
    with True show ?thesis by blast
  next
    case False
    with fields show ?thesis
      by (simp add: walk_step_def)
  qed
qed

lemma walk_step_ok:
  assumes "walk_ok s"
  shows "walk_ok (walk_step w h rs s)"
proof -
  from walk_step_cases [of w h rs s] show ?thesis
  proof
    assume "walk_step w h rs s = s\<lparr>w_rnd := snd (snd (walk_target w h rs s))\<rparr>"
    with assms show ?thesis by (simp add: walk_ok_def)
  next
    assume "\<exists>x y. (x, y) \<noteq> (current_x s, current_y s) \<and>
      walk_step w h rs s =
        \<lparr>current_x = x, current_y = y,
         river_points = river_points s @ [int_point x y],
         w_rnd = snd (snd (walk_target w h rs s))\<rparr>"
    then obtain x y where ne: "(x, y) \<noteq> (current_x s, current_y s)" and
      e: "walk_step w h rs s =
        \<lparr>current_x = x, current_y = y,
         river_points = river_points s @ [int_point x y],
         w_rnd = snd (snd (walk_target w h rs s))\<rparr>"
      by blast
    from ne have "int_point (current_x s) (current_y s) \<noteq> int_point x y"
      by (auto simp: int_point_eq)
    with assms show ?thesis
      unfolding e walk_ok_def by (simp add: distinct_adj_append_iff)
  qed
qed

lemma walk_step_length:
  "length (river_points (walk_step w h rs s)) \<le> Suc (length (river_points s))"
  using walk_step_cases [of w h rs s] by auto

lemma walk_loop_ok: "walk_ok s \<Longrightarrow> walk_ok (walk_loop w h rs n s)"
  by (induction n arbitrary: s) (simp_all add: walk_step_ok)

lemma walk_loop_length:
  "length (river_points (walk_loop w h rs n s)) \<le> length (river_points s) + n"
proof (induction n arbitrary: s)
  case 0
  show ?case by simp
next
  case (Suc n)
  have "length (river_points (walk_loop w h rs n (walk_step w h rs s)))
          \<le> length (river_points (walk_step w h rs s)) + n"
    by (rule Suc.IH)
  with walk_step_length [of w h rs s] show ?case by simp
qed

lemma generate_river_cases:
  assumes "generate_river w h rs i = Inr (r, i')"
  shows "\<exists>start_x start_y i3 n i4.
           random_randint 20 50 rs i3 = Inr (n, i4) \<and>
           points r = river_points (walk_loop w h rs (nat n)
             \<lparr>current_x = start_x, current_y = start_y,
              river_points = [int_point start_x start_y], w_rnd = i4\<rparr>)"
proof (cases "spawn w h rs i")
  case (Inl e)
  with assms show ?thesis by (simp add: generate_river_def)
next
  case (Inr sp)
  obtain start_x start_y i3 where sp: "sp = (start_x, start_y, i3)"
    by (cases sp) auto
  show ?thesis
  proof (cases "random_randint 20 50 rs i3")
    case (Inl e)
    with assms Inr sp show ?thesis by (simp add: generate_river_def)
  next
    case n: (Inr ni)
    obtain n i4 where ni: "ni = (n, i4)"
      by (cases ni) auto
    from assms Inr sp n ni have
      "points r = river_points (walk_loop w h rs (nat n)
             \<lparr>current_x = start_x, current_y = start_y,
              river_points = [int_point start_x start_y], w_rnd = i4\<rparr>)"
      by (auto simp: generate_river_def Let_def split_def)
    with n ni show ?thesis by blast
  qed
qed

lemma generate_river_points:
  assumes "generate_river w h rs i = Inr (r, i')"
  shows "1 \<le> length (points r) \<and> length (points r) \<le> 51 \<and> distinct_adj (points r)"
proof -
  from generate_river_cases [OF assms] obtain start_x start_y i3 n i4 where
    n: "random_randint 20 50 rs i3 = Inr (n, i4)" and
    r: "points r = river_points (walk_loop w h rs (nat n)
          \<lparr>current_x = start_x, current_y = start_y,
           river_points = [int_point start_x start_y], w_rnd = i4\<rparr>)"
    by blast
  define s0 where "s0 = \<lparr>current_x = start_x, current_y = start_y,
           river_points = [int_point start_x start_y], w_rnd = i4\<rparr>"
  have "walk_ok s0"
    by (simp add: walk_ok_def s0_def)
  then have ok: "walk_ok (walk_loop w h rs (nat n) s0)"
    by (rule walk_loop_ok)
  from random_randint_range [OF n] have "nat n \<le> 50"
    by linarith
  moreover have "length (river_points s0) = 1"
    by (simp add: s0_def)
  ultimately have "length (river_points (walk_loop w h rs (nat n) s0)) \<le> 51"
    using walk_loop_length [of w h rs "nat n" s0] by linarith
  moreover from ok have "river_points (walk_loop w h rs (nat n) s0) \<noteq> []"
    and "distinct_adj (river_points (walk_loop w h rs (nat n) s0))"
    by (simp_all add: walk_ok_def)
  ultimately show ?thesis
    unfolding r s0_def [symmetric]
    by (cases "river_points (walk_loop w h rs (nat n) s0)") simp_all
qed

lemma generate_rivers_loop_points:
  assumes "generate_rivers_loop w h rs k acc i = Inr (rivers, i')"
    and "\<forall>r\<in>set acc. 1 \<le> length (points r) \<and> length (points r) \<le> 51 \<and> distinct_adj (points r)"
  shows "\<forall>r\<in>set rivers. 1 \<le> length (points r) \<and> length (points r) \<le> 51 \<and> distinct_adj (points r)"
  using assms
proof (induction k arbitrary: acc i)
  case 0
  then show ?case by simp
next
  case (Suc k)
  from Suc.prems(1) obtain r i1 where
    r: "generate_river w h rs i = Inr (r, i1)" and
    run: "generate_rivers_loop w h rs k (acc @ [r]) i1 = Inr (rivers, i')"
    by (auto split: sum.splits)
  from generate_river_points [OF r] Suc.prems(2)
  have "\<forall>r\<in>set (acc @ [r]). 1 \<le> length (points r) \<and> length (points r) \<le> 51 \<and> distinct_adj (points r)"
    by simp
  from Suc.IH [OF run this] show ?case .
qed

text \<open>
  C7. Every river that \<open>generate_rivers\<close> returns has between 1 and 51 points: the
  spawn point, and at most one point for each of the at most 50 rounds of the walk (the
  round count is drawn by \<open>randint(20, 50)\<close>). A round appends its cell only when it
  differs from the current one, so neighbouring points of a river are never equal.
\<close>

theorem river_has_1_to_51_points:
  assumes "generate_rivers w h num_rivers rs i = Inr (rivers, i')"
  shows "\<forall>r\<in>set rivers.
           1 \<le> length (points r) \<and> length (points r) \<le> 51 \<and> distinct_adj (points r)"
  using assms unfolding generate_rivers_def
  by (rule generate_rivers_loop_points) simp

lemma spawn_returns:
  assumes "1 \<le> w" and "1 \<le> h"
  shows "\<exists>sp. spawn w h rs i = Inr sp"
  using assms by (simp add: spawn_def Let_def split_def random_randint_def)

lemma generate_river_returns:
  assumes "1 \<le> w" and "1 \<le> h"
  shows "\<exists>r i'. generate_river w h rs i = Inr (r, i')"
proof -
  from spawn_returns [OF assms] obtain sp where sp: "spawn w h rs i = Inr sp"
    by blast
  then show ?thesis
    by (cases sp) (simp add: generate_river_def Let_def split_def random_randint_def)
qed

lemma generate_rivers_loop_returns:
  assumes "1 \<le> w" and "1 \<le> h"
  shows "\<exists>rivers i'. generate_rivers_loop w h rs k acc i = Inr (rivers, i') \<and>
           length rivers = length acc + k"
proof (induction k arbitrary: acc i)
  case 0
  show ?case by simp
next
  case (Suc k)
  from generate_river_returns [OF assms] obtain r i1 where
    r: "generate_river w h rs i = Inr (r, i1)"
    by blast
  from Suc.IH [of "acc @ [r]" i1] r show ?case
    by auto
qed

lemma generate_rivers_returns:
  assumes "1 \<le> w" and "1 \<le> h"
  shows "\<exists>rivers i'. generate_rivers w h num_rivers rs i = Inr (rivers, i') \<and>
           length rivers = nat num_rivers"
  using generate_rivers_loop_returns [OF assms, of rs "nat num_rivers" "[]" i]
  by (simp add: generate_rivers_def)

lemma still_target:
  "walk_target 100 100 (\<lambda>_. 0) \<lparr>current_x = 0, current_y = 0, river_points = ps, w_rnd = k\<rparr>
     = (0, 0, Suc (Suc k))"
  by (simp add: walk_target_def random_choice_def)

lemma still_step:
  "walk_step 100 100 (\<lambda>_. 0) \<lparr>current_x = 0, current_y = 0, river_points = ps, w_rnd = k\<rparr>
     = \<lparr>current_x = 0, current_y = 0, river_points = ps, w_rnd = Suc (Suc k)\<rparr>"
  by (simp add: walk_step_def still_target)

lemma still_loop:
  "walk_loop 100 100 (\<lambda>_. 0) n \<lparr>current_x = 0, current_y = 0, river_points = ps, w_rnd = k\<rparr>
     = \<lparr>current_x = 0, current_y = 0, river_points = ps, w_rnd = k + 2 * n\<rparr>"
  by (induction n arbitrary: k) (simp_all add: still_step)

lemma still_spawn: "spawn 100 100 (\<lambda>_. 0) 0 = Inr (0, 0, 3)"
  by (simp add: spawn_def random_random_def random_randint_def numeral_3_eq_3)

lemma still_river:
  "generate_river 100 100 (\<lambda>_. 0) 0 =
     Inr (\<lparr>points = [\<lparr>px = 0, py = 0\<rparr>], r_width = 0.5\<rparr>, 45)"
  by (simp add: generate_river_def still_spawn random_randint_def still_loop int_point_def
        random_uniform_def random_random_def)

lemma still_rivers:
  "generate_rivers 100 100 1 (\<lambda>_. 0) 0 =
     Inr ([\<lparr>points = [\<lparr>px = 0, py = 0\<rparr>], r_width = 0.5\<rparr>], 45)"
  by (simp add: generate_rivers_def still_river)

theorem river_has_1_to_51_points_witness:
  "generate_rivers 100 100 1 (\<lambda>_. 0) 0 =
     Inr ([\<lparr>points = [\<lparr>px = 0, py = 0\<rparr>], r_width = 0.5\<rparr>], 45)
   \<and> 1 \<le> length (points \<lparr>points = [\<lparr>px = 0, py = 0\<rparr>], r_width = 0.5\<rparr>)
   \<and> length (points \<lparr>points = [\<lparr>px = 0, py = 0\<rparr>], r_width = 0.5\<rparr>) \<le> 51"
  using river_has_1_to_51_points [OF still_rivers] still_rivers by simp

section \<open>Building placer: proofs\<close>

lemma random_random_range: "0 \<le> fst (random_random rs i) \<and> fst (random_random rs i) < 1"
proof -
  have "rs i mod 2 ^ 53 < 2 ^ 53"
    by simp
  then have "real (rs i mod 2 ^ 53) < 2 ^ 53"
    by (metis of_nat_less_iff of_nat_numeral of_nat_power)
  then show ?thesis
    by (simp add: random_random_def)
qed

lemma random_uniform_range:
  assumes "a \<le> b"
  shows "a \<le> fst (random_uniform a b rs i) \<and> fst (random_uniform a b rs i) \<le> b"
proof -
  define u where "u = fst (random_random rs i)"
  have u: "0 \<le> u" "u < 1"
    using random_random_range [of rs i] by (simp_all add: u_def)
  have "0 \<le> (b - a) * u"
    using assms u by simp
  moreover have "(b - a) * u \<le> (b - a) * 1"
    using assms u by (intro mult_left_mono) simp_all
  ultimately show ?thesis
    by (simp add: random_uniform_def u_def [symmetric])
qed

lemma random_uniform_index: "snd (random_uniform a b rs i) = Suc i"
  by (simp add: random_uniform_def)

lemma street_building_position:
  "\<bar>px (position (fst (street_building street n i rs k)))
      - (px (start street)
         + real_of_int i / real_of_int (max 1 (n - 1)) * (px (end_pt street) - px (start street)))\<bar> \<le> 1
   \<and> \<bar>py (position (fst (street_building street n i rs k)))
      - (py (start street)
         + real_of_int i / real_of_int (max 1 (n - 1)) * (py (end_pt street) - py (start street)))\<bar> \<le> 1"
  using random_uniform_range [of "- 1" 1 rs k] random_uniform_range [of "- 1" 1 rs "Suc k"]
  by (simp add: street_building_def Let_def split_def random_uniform_index abs_le_iff)

lemma street_building_index: "snd (street_building street n i rs k) = k + 5"
  by (simp add: street_building_def Let_def split_def random_uniform_index random_choice_def)

lemma street_loop_closed:
  "street_loop street n is rs acc (k0 + 5 * m) =
     (acc @ map (\<lambda>(j, i). fst (street_building street n (int i) rs (k0 + 5 * j)))
              (zip [m..<m + length is] is),
      k0 + 5 * (m + length is))"
proof (induction "is" arbitrary: acc m)
  case Nil
  show ?case by simp
next
  case (Cons i rest)
  have idx: "snd (street_building street n (int i) rs (k0 + 5 * m)) = k0 + 5 * Suc m"
    by (simp add: street_building_index)
  have "m < Suc m + length rest"
    by simp
  then have "[m..<Suc m + length rest] = m # [Suc m..<Suc m + length rest]"
    by (rule upt_conv_Cons)
  moreover have "m + length (i # rest) = Suc m + length rest"
    by simp
  ultimately have upt: "[m..<m + length (i # rest)] = m # [Suc m..<Suc m + length rest]"
    by (simp only:)
  have step: "street_loop street n (i # rest) rs acc (k0 + 5 * m) =
      street_loop street n rest rs
        (acc @ [fst (street_building street n (int i) rs (k0 + 5 * m))]) (k0 + 5 * Suc m)"
    using idx by (simp add: split_def)
  show ?case
    unfolding step upt Cons.IH by simp
qed

lemma map_zip_same: "map (\<lambda>(j, i). f j i) (zip xs xs) = map (\<lambda>j. f j j) xs"
  by (induction xs) simp_all

lemma distance_to_nonneg: "0 \<le> distance_to p q"
  by (simp add: distance_to_def)

lemma py_int_floor: "0 \<le> r \<Longrightarrow> py_int r = \<lfloor>r\<rfloor>"
  by (simp add: py_int_def)

lemma street_buildings_closed:
  "street_buildings street rs acc k =
     (acc @ map (\<lambda>j. fst (street_building street
                          \<lfloor>distance_to (start street) (end_pt street) / 3\<rfloor> (int j) rs (k + 5 * j)))
              [0..<nat \<lfloor>distance_to (start street) (end_pt street) / 3\<rfloor>],
      k + 5 * nat \<lfloor>distance_to (start street) (end_pt street) / 3\<rfloor>)"
proof -
  define n where "n = \<lfloor>distance_to (start street) (end_pt street) / 3\<rfloor>"
  have "0 \<le> distance_to (start street) (end_pt street) / 3"
    using distance_to_nonneg [of "start street" "end_pt street"] by simp
  then have n: "py_int (distance_to (start street) (end_pt street) / 3) = n"
    unfolding n_def by (rule py_int_floor)
  have "street_buildings street rs acc k = street_loop street n [0..<nat n] rs acc (k + 5 * 0)"
    by (simp add: street_buildings_def Let_def n)
  also have "\<dots> = (acc @ map (\<lambda>(j, i). fst (street_building street n (int i) rs (k + 5 * j)))
                        (zip [0..<0 + length [0..<nat n]] [0..<nat n]),
                  k + 5 * (0 + length [0..<nat n]))"
    by (rule street_loop_closed)
  also have "\<dots> = (acc @ map (\<lambda>j. fst (street_building street n (int j) rs (k + 5 * j))) [0..<nat n],
                  k + 5 * nat n)"
    by (simp add: map_zip_same)
  finally show ?thesis
    unfolding n_def .
qed

lemma parametric_position_eq:
  assumes "j < nat n"
  shows "real_of_int (int j) / real_of_int (max 1 (n - 1)) = parametric_position n j"
proof (cases "n > 1")
  case True
  then show ?thesis by (simp add: parametric_position_def max_def)
next
  case False
  with assms have "j = 0" by linarith
  with False show ?thesis by (simp add: parametric_position_def)
qed

lemma streets_loop_length:
  "length (fst (streets_loop strs rs acc k)) =
     length acc + (\<Sum>s\<leftarrow>strs. nat \<lfloor>distance_to (start s) (end_pt s) / 3\<rfloor>)"
proof (induction strs arbitrary: acc k)
  case Nil
  show ?case by simp
next
  case (Cons s strs)
  show ?case
    by (simp add: street_buildings_closed Cons.IH)
qed

text \<open>
  C8. For every street, the street-frontage loop appends exactly \<open>floor(length / 3)\<close>
  buildings. The building with index \<open>i\<close> among \<open>count\<close> stands at the point of the
  segment with parameter \<open>t = i / (count - 1)\<close> when \<open>count > 1\<close> (at \<open>t = 0\<close> when
  \<open>count = 1\<close>), moved on each axis by a jitter in \<open>[-1, 1]\<close>. Over all streets the
  loop therefore yields the sum of these counts.
\<close>

theorem street_frontage_count_and_positions:
  "(let n = \<lfloor>distance_to (start street) (end_pt street) / 3\<rfloor>;
        bs = fst (street_buildings street rs acc k)
    in length bs = length acc + nat n \<and>
       (\<forall>j<nat n.
          \<bar>px (position (bs ! (length acc + j)))
             - (px (start street)
                + parametric_position n j * (px (end_pt street) - px (start street)))\<bar> \<le> 1 \<and>
          \<bar>py (position (bs ! (length acc + j)))
             - (py (start street)
                + parametric_position n j * (py (end_pt street) - py (start street)))\<bar> \<le> 1))
   \<and> length (fst (streets_loop strs rs [] k)) =
       (\<Sum>s\<leftarrow>strs. nat \<lfloor>distance_to (start s) (end_pt s) / 3\<rfloor>)"
proof -
  define n where "n = \<lfloor>distance_to (start street) (end_pt street) / 3\<rfloor>"
  define bs where "bs = fst (street_buildings street rs acc k)"
  have bs: "bs = acc @ map (\<lambda>j. fst (street_building street n (int j) rs (k + 5 * j))) [0..<nat n]"
    by (simp add: bs_def n_def street_buildings_closed)
  have len: "length bs = length acc + nat n"
    by (simp add: bs)
  have pos: "\<bar>px (position (bs ! (length acc + j)))
             - (px (start street)
                + parametric_position n j * (px (end_pt street) - px (start street)))\<bar> \<le> 1 \<and>
          \<bar>py (position (bs ! (length acc + j)))
             - (py (start street)
                + parametric_position n j * (py (end_pt street) - py (start street)))\<bar> \<le> 1"
    if j: "j < nat n" for j
  proof -
    from j have "bs ! (length acc + j) = fst (street_building street n (int j) rs (k + 5 * j))"
      by (simp add: bs nth_append)
    then show ?thesis
      using street_building_position [of street n "int j" rs "k + 5 * j"]
      by (simp only: parametric_position_eq [OF j])
  qed
  from len pos show ?thesis
    unfolding Let_def n_def [symmetric] bs_def [symmetric]
    by (simp add: streets_loop_length)
qed

lemma ten_long:
  "distance_to \<lparr>px = 0, py = 0\<rparr> \<lparr>px = 10, py = 0\<rparr> = 10"
  unfolding distance_to_def by (rule real_sqrt_unique) simp_all

theorem street_frontage_count_and_positions_witness:
  "length (fst (street_buildings
      \<lparr>start = \<lparr>px = 0, py = 0\<rparr>, end_pt = \<lparr>px = 10, py = 0\<rparr>, st_width = 1, street_type = ''main''\<rparr>
      (\<lambda>_. 0) [] 0)) = 3
   \<and> \<bar>px (position (fst (street_buildings
      \<lparr>start = \<lparr>px = 0, py = 0\<rparr>, end_pt = \<lparr>px = 10, py = 0\<rparr>, st_width = 1, street_type = ''main''\<rparr>
      (\<lambda>_. 0) [] 0) ! 1)) - 5\<bar> \<le> 1
   \<and> \<bar>px (position (fst (street_buildings
      \<lparr>start = \<lparr>px = 0, py = 0\<rparr>, end_pt = \<lparr>px = 10, py = 0\<rparr>, st_width = 1, street_type = ''main''\<rparr>
      (\<lambda>_. 0) [] 0) ! 2)) - 10\<bar> \<le> 1"
proof -
  let ?s = "\<lparr>start = \<lparr>px = 0, py = 0\<rparr>, end_pt = \<lparr>px = 10, py = 0\<rparr>,
             st_width = 1, street_type = ''main''\<rparr>"
  have n: "\<lfloor>distance_to (start ?s) (end_pt ?s) / 3\<rfloor> = 3"
    by (simp add: ten_long)
  have p: "parametric_position 3 1 = 1 / 2" "parametric_position 3 2 = 1"
    by (simp_all add: parametric_position_def)
  let ?bs = "fst (street_buildings ?s (\<lambda>_. 0) [] 0)"
  from street_frontage_count_and_positions [of ?s "\<lambda>_. 0" "[]" 0 "[]"]
  have len: "length ?bs = length ([] :: Building list) + nat 3"
    and all: "\<forall>j<nat 3.
          \<bar>px (position (?bs ! (length ([] :: Building list) + j)))
             - (px (start ?s) + parametric_position 3 j * (px (end_pt ?s) - px (start ?s)))\<bar> \<le> 1 \<and>
          \<bar>py (position (?bs ! (length ([] :: Building list) + j)))
             - (py (start ?s) + parametric_position 3 j * (py (end_pt ?s) - py (start ?s)))\<bar> \<le> 1"
    unfolding Let_def n by blast+
  have "(1::nat) < nat 3"
    by simp
  with all have one: "\<bar>px (position (?bs ! (length ([] :: Building list) + 1)))
             - (px (start ?s) + parametric_position 3 1 * (px (end_pt ?s) - px (start ?s)))\<bar> \<le> 1"
    by blast
  have "(2::nat) < nat 3"
    by simp
  with all have two: "\<bar>px (position (?bs ! (length ([] :: Building list) + 2)))
             - (px (start ?s) + parametric_position 3 2 * (px (end_pt ?s) - px (start ?s)))\<bar> \<le> 1"
    by blast
  from len one two show ?thesis
    unfolding p by (simp add: numeral_2_eq_2)
qed

lemma foldl_plus_sum: "foldl (+) a xs = a + sum_list (xs :: real list)"
  by (induction xs arbitrary: a) simp_all

lemma py_sum_mean: "py_sum xs / real (length xs) = mean xs"
  by (simp add: py_sum_def mean_def foldl_plus_sum)

lemma scatter_loop_closed:
  "\<exists>bs. scatter_loop cx cy n rs acc k = (acc @ bs, k + 5 * n) \<and> length bs = n \<and>
        (\<forall>b\<in>set bs. near cx cy b)"
proof (induction n arbitrary: acc k)
  case 0
  show ?case by simp
next
  case (Suc n)
  define b where "b = \<lparr>position = \<lparr>px = cx + fst (random_uniform (- 10) 10 rs k),
                                    py = cy + fst (random_uniform (- 10) 10 rs (Suc k))\<rparr>,
                        b_width = fst (random_uniform 0.5 2.0 rs (Suc (Suc k))),
                        b_height = fst (random_uniform 0.5 2.0 rs (Suc (Suc (Suc k)))),
                        building_type = fst (random_choice
                          [''residential'', ''commercial'', ''industrial''] rs (Suc (Suc (Suc (Suc k)))))\<rparr>"
  have five: "Suc (Suc (Suc (Suc (Suc k)))) = k + 5"
    by simp
  have "scatter_loop cx cy (Suc n) rs acc k =
          scatter_loop cx cy n rs (acc @ [b]) (Suc (Suc (Suc (Suc (Suc k)))))"
    by (simp add: split_def random_uniform_index random_choice_def b_def)
  then have step: "scatter_loop cx cy (Suc n) rs acc k = scatter_loop cx cy n rs (acc @ [b]) (k + 5)"
    unfolding five .
  have nb: "near cx cy b"
    using random_uniform_range [of "- 10" 10 rs k] random_uniform_range [of "- 10" 10 rs "Suc k"]
    by (simp add: near_def b_def abs_le_iff)
  from Suc.IH [of "acc @ [b]" "k + 5"] obtain bs where
    bs: "scatter_loop cx cy n rs (acc @ [b]) (k + 5) = ((acc @ [b]) @ bs, k + 5 + 5 * n)"
      "length bs = n" "\<forall>b\<in>set bs. near cx cy b"
    by blast
  have "scatter_loop cx cy (Suc n) rs acc k = (acc @ (b # bs), k + 5 * Suc n)"
    unfolding step bs(1) by simp
  moreover have "length (b # bs) = Suc n"
    using bs(2) by simp
  moreover have "\<forall>x\<in>set (b # bs). near cx cy x"
    using nb bs(3) by simp
  ultimately show ?case by blast
qed

text \<open>
  C9. A district of fewer than three vertices adds no building. For a district of at
  least three vertices the placer adds between 5 and 15 buildings, each at the unweighted
  mean of the district's vertices moved on each axis by a jitter in \<open>[-10, 10]\<close>; for a
  triangle that mean is the sum of the three vertices divided by 3.
\<close>

theorem district_cluster_centred_at_vertex_mean:
  "(length district < 3 \<longrightarrow> district_buildings district rs acc k = Inr (acc, k))
   \<and> (3 \<le> length district \<longrightarrow>
        (\<exists>bs k'. district_buildings district rs acc k = Inr (acc @ bs, k') \<and>
           5 \<le> length bs \<and> length bs \<le> 15 \<and>
           (\<forall>b\<in>set bs.
              \<bar>px (position b) - mean (map px district)\<bar> \<le> 10 \<and>
              \<bar>py (position b) - mean (map py district)\<bar> \<le> 10)))
   \<and> mean (map px [a, b, c]) = (px a + px b + px c) / 3
   \<and> mean (map py [a, b, c]) = (py a + py b + py c) / 3"
proof -
  have small: "district_buildings district rs acc k = Inr (acc, k)" if "length district < 3"
    using that by (simp add: district_buildings_def)
  have big: "\<exists>bs k'. district_buildings district rs acc k = Inr (acc @ bs, k') \<and>
           5 \<le> length bs \<and> length bs \<le> 15 \<and>
           (\<forall>b\<in>set bs.
              \<bar>px (position b) - mean (map px district)\<bar> \<le> 10 \<and>
              \<bar>py (position b) - mean (map py district)\<bar> \<le> 10)"
    if d: "3 \<le> length district"
  proof -
    obtain n k1 where n: "random_randint 5 15 rs k = Inr (n, k1)"
      by (simp add: random_randint_def)
    from random_randint_range [OF n] have r: "5 \<le> nat n" "nat n \<le> 15"
      by linarith+
    from scatter_loop_closed [of "mean (map px district)" "mean (map py district)" "nat n" rs acc k1]
    obtain bs where bs:
      "scatter_loop (mean (map px district)) (mean (map py district)) (nat n) rs acc k1
         = (acc @ bs, k1 + 5 * nat n)"
      "length bs = nat n"
      "\<forall>b\<in>set bs. near (mean (map px district)) (mean (map py district)) b"
      by blast
    from d n have "district_buildings district rs acc k = Inr (acc @ bs, k1 + 5 * nat n)"
      by (simp add: district_buildings_def Let_def py_sum_mean [of "map px district", simplified]
            py_sum_mean [of "map py district", simplified] bs(1))
    with r bs(2,3) show ?thesis
      unfolding near_def by auto
  qed
  have tri: "mean (map px [a, b, c]) = (px a + px b + px c) / 3"
      "mean (map py [a, b, c]) = (py a + py b + py c) / 3"
    by (simp_all add: mean_def)
  from small big tri show ?thesis by blast
qed

lemma district_buildings_returns:
  "\<exists>bs k'. district_buildings district rs acc k = Inr (bs, k')"
  by (cases "scatter_loop (py_sum (map px district) / real (length district))
               (py_sum (map py district) / real (length district))
               (nat (5 + int (rs k mod 11))) rs acc (Suc k)")
     (simp add: district_buildings_def Let_def random_randint_def)

lemma districts_buildings_loop_returns:
  "\<exists>bs k'. districts_buildings_loop dists rs acc k = Inr (bs, k')"
proof (induction dists arbitrary: acc k)
  case Nil
  show ?case by simp
next
  case (Cons d dists)
  from district_buildings_returns [of d rs acc k] obtain bs k1 where
    "district_buildings d rs acc k = Inr (bs, k1)"
    by blast
  with Cons.IH [of bs k1] show ?case
    by simp
qed

lemma generate_buildings_returns:
  "\<exists>bs k'. generate_buildings strs dists num_buildings rs k = Inr (bs, k')"
  unfolding generate_buildings_def Let_def split_def
  by (rule districts_buildings_loop_returns)

lemma triangle_cluster:
  "district_buildings [\<lparr>px = 0, py = 0\<rparr>, \<lparr>px = 6, py = 0\<rparr>, \<lparr>px = 0, py = 9\<rparr>] (\<lambda>_. 0) [] 0
     = Inr ([\<lparr>position = \<lparr>px = - 8, py = - 7\<rparr>, b_width = 0.5, b_height = 0.5,
        building_type = ''residential''\<rparr>,
       \<lparr>position = \<lparr>px = - 8, py = - 7\<rparr>, b_width = 0.5, b_height = 0.5,
        building_type = ''residential''\<rparr>,
       \<lparr>position = \<lparr>px = - 8, py = - 7\<rparr>, b_width = 0.5, b_height = 0.5,
        building_type = ''residential''\<rparr>,
       \<lparr>position = \<lparr>px = - 8, py = - 7\<rparr>, b_width = 0.5, b_height = 0.5,
        building_type = ''residential''\<rparr>,
       \<lparr>position = \<lparr>px = - 8, py = - 7\<rparr>, b_width = 0.5, b_height = 0.5,
        building_type = ''residential''\<rparr>], 26)"
proof -
  have n: "random_randint 5 15 (\<lambda>_. 0) 0 = Inr (5, 1)"
    by (simp add: random_randint_def)
  have u: "random_uniform a b (\<lambda>_. 0) i = (a, Suc i)" for a b i
    by (simp add: random_uniform_def random_random_def)
  have c: "random_choice [''residential'', ''commercial'', ''industrial''] (\<lambda>_. 0) i
             = (''residential'', Suc i)" for i
    by (simp add: random_choice_def)
  have "scatter_loop 2 3 (Suc (Suc (Suc (Suc (Suc 0))))) (\<lambda>_. 0) [] (Suc 0)
     = ([\<lparr>position = \<lparr>px = - 8, py = - 7\<rparr>, b_width = 0.5, b_height = 0.5,
        building_type = ''residential''\<rparr>,
       \<lparr>position = \<lparr>px = - 8, py = - 7\<rparr>, b_width = 0.5, b_height = 0.5,
        building_type = ''residential''\<rparr>,
       \<lparr>position = \<lparr>px = - 8, py = - 7\<rparr>, b_width = 0.5, b_height = 0.5,
        building_type = ''residential''\<rparr>,
       \<lparr>position = \<lparr>px = - 8, py = - 7\<rparr>, b_width = 0.5, b_height = 0.5,
        building_type = ''residential''\<rparr>,
       \<lparr>position = \<lparr>px = - 8, py = - 7\<rparr>, b_width = 0.5, b_height = 0.5,
        building_type = ''residential''\<rparr>], 26)"
    by (simp add: u c)
  moreover have "(5::nat) = Suc (Suc (Suc (Suc (Suc 0))))"
    by simp
  ultimately have sc: "scatter_loop 2 3 5 (\<lambda>_. 0) [] (Suc 0)
     = ([\<lparr>position = \<lparr>px = - 8, py = - 7\<rparr>, b_width = 0.5, b_height = 0.5,
        building_type = ''residential''\<rparr>,
       \<lparr>position = \<lparr>px = - 8, py = - 7\<rparr>, b_width = 0.5, b_height = 0.5,
        building_type = ''residential''\<rparr>,
       \<lparr>position = \<lparr>px = - 8, py = - 7\<rparr>, b_width = 0.5, b_height = 0.5,
        building_type = ''residential''\<rparr>,
       \<lparr>position = \<lparr>px = - 8, py = - 7\<rparr>, b_width = 0.5, b_height = 0.5,
        building_type = ''residential''\<rparr>,
       \<lparr>position = \<lparr>px = - 8, py = - 7\<rparr>, b_width = 0.5, b_height = 0.5,
        building_type = ''residential''\<rparr>], 26)"
    by (simp only:)
  show ?thesis
    unfolding district_buildings_def
    by (simp add: py_sum_def n sc Let_def)
qed

theorem district_cluster_centred_at_vertex_mean_witness:
  "3 \<le> length [\<lparr>px = 0, py = 0\<rparr>, \<lparr>px = 6, py = 0\<rparr>, \<lparr>px = 0, py = (9::real)\<rparr>]
   \<and> mean (map px [\<lparr>px = 0, py = 0\<rparr>, \<lparr>px = 6, py = 0\<rparr>, \<lparr>px = 0, py = 9\<rparr>]) = 2
   \<and> mean (map py [\<lparr>px = 0, py = 0\<rparr>, \<lparr>px = 6, py = 0\<rparr>, \<lparr>px = 0, py = 9\<rparr>]) = 3
   \<and> map position (fst (projr (district_buildings
         [\<lparr>px = 0, py = 0\<rparr>, \<lparr>px = 6, py = 0\<rparr>, \<lparr>px = 0, py = 9\<rparr>] (\<lambda>_. 0) [] 0)))
       = [\<lparr>px = - 8, py = - 7\<rparr>, \<lparr>px = - 8, py = - 7\<rparr>, \<lparr>px = - 8, py = - 7\<rparr>,
          \<lparr>px = - 8, py = - 7\<rparr>, \<lparr>px = - 8, py = - 7\<rparr>]
   \<and> length [\<lparr>px = 0, py = 0\<rparr>, \<lparr>px = 6, py = (0::real)\<rparr>] < 3
   \<and> district_buildings [\<lparr>px = 0, py = 0\<rparr>, \<lparr>px = 6, py = 0\<rparr>] (\<lambda>_. 0) [] 0 = Inr ([], 0)"
proof -
  have t: "mean (map px [\<lparr>px = 0, py = 0\<rparr>, \<lparr>px = 6, py = 0\<rparr>, \<lparr>px = 0, py = 9\<rparr>]) = 2"
      "mean (map py [\<lparr>px = 0, py = 0\<rparr>, \<lparr>px = 6, py = 0\<rparr>, \<lparr>px = 0, py = 9\<rparr>]) = 3"
    using district_cluster_centred_at_vertex_mean
      [of "[]" "\<lambda>_. 0" "[]" 0 "\<lparr>px = 0, py = 0\<rparr>" "\<lparr>px = 6, py = 0\<rparr>" "\<lparr>px = 0, py = 9\<rparr>"]
    by simp_all
  have s: "district_buildings [\<lparr>px = 0, py = 0\<rparr>, \<lparr>px = 6, py = 0\<rparr>] (\<lambda>_. 0) [] 0 = Inr ([], 0)"
    using district_cluster_centred_at_vertex_mean
      [of "[\<lparr>px = 0, py = 0\<rparr>, \<lparr>px = 6, py = 0\<rparr>]" "\<lambda>_. 0" "[]" 0
          "\<lparr>px = 0, py = 0\<rparr>" "\<lparr>px = 6, py = 0\<rparr>" "\<lparr>px = 0, py = 9\<rparr>"]
    by simp
  from t s show ?thesis
    by (simp add: triangle_cluster)
qed

end
